theory Spec2Isabelle
  imports Complex_Main
begin

section \<open>Keyboard teleoperation of arm, torso and gripper (arm\_teleop.py)\<close>

text \<open>
  A shallow embedding of the class \<open>ArmTeleop\<close> and of the part of \<open>TextWindow\<close> it
  calls. The object is a record that every method takes and returns; an exception is a
  left value carrying the object as the raise leaves it (Python mutates in place, so
  what was assigned before the raise stays assigned).

  Conventions of the embedding:
  \<^item> joint positions are Python floats; they are idealised as \<open>real\<close>, so \<open>+\<close> is exact;
  \<^item> an \<open>rclpy\<close> time is its count of nanoseconds, an \<open>int\<close>; the difference of two
    times is the difference of the counts and durations compare by their counts;
  \<^item> what the program does to the outside (the calls on the text window, the goals
    handed to the action clients, the log lines, the requests for a result) is
    appended to lists held in the record;
  \<^item> what the outside gives to the program (the key code returned by \<open>getch\<close>, the two
    clock readings, whether the interrupt signal raises inside \<open>os.kill\<close>) comes as a
    record \<open>env\<close>, one per loop iteration.
\<close>

subsection \<open>Data\<close>

text \<open>The value of \<open>_selected_joint\<close> is \<open>None\<close>, an \<open>int\<close> or a \<open>str\<close>.\<close>

datatype joint = JInt int | JStr string

datatype exn = KeyboardInterrupt | IndexError | KeyError | ValueError

text \<open>
  The text shown on a line of the window. The format strings of the source are kept as
  constructors with the values they interpolate; the rendering of a float with two
  decimals is not modelled.
\<close>

datatype message =
    Selected_Joint_int int
  | Selected_Joint_str string
  | Joint_Position int real
  | Torso_Position real
  | Gripper_Position real
  | Reselect_Joint
  | Instructions

datatype display_op = Clear | Write_line int message | Refresh

record point =
  positions :: "real list"
  time_from_start :: "int \<times> int"

record goal =
  joint_names :: "string list"
  points :: "point list"

datatype log_msg = Info string | Info_result int

record teleop =
  joint_positions_arm :: "real list"
  joint_position_torso :: real
  joint_position_gripper :: real
  selected_joint :: "joint option"
  running :: bool
  goal_sent :: bool
  last_pressed :: "(int \<times> int) list"
  display :: "display_op list"
  submitted :: "(string \<times> goal) list"
  logged :: "log_msg list"
  result_requests :: nat

type_synonym res = "(exn \<times> teleop) + teleop"

record env =
  getch :: int
  press_now :: int
  tick_now :: int
  sigint_raises :: bool

definition state_of :: "res \<Rightarrow> teleop" where
  "state_of r = (case r of Inl (x, s) \<Rightarrow> s | Inr s \<Rightarrow> s)"

definition raised :: "res \<Rightarrow> exn option" where
  "raised r = (case r of Inl (x, s) \<Rightarrow> Some x | Inr s \<Rightarrow> None)"

definition bind_res :: "res \<Rightarrow> (teleop \<Rightarrow> res) \<Rightarrow> res" where
  "bind_res r f = (case r of Inl x \<Rightarrow> Inl x | Inr s \<Rightarrow> f s)"

subsection \<open>Python containers\<close>

text \<open>
  \<open>xs[i]\<close> on a list: an index from \<open>-len\<close> to \<open>len - 1\<close> names a position, any other
  raises \<open>IndexError\<close> (here \<open>None\<close>).
\<close>

definition py_index :: "'a list \<Rightarrow> int \<Rightarrow> nat option" where
  "py_index xs i =
     (let n = int (length xs); j = (if i < 0 then n + i else i)
      in if 0 \<le> j \<and> j < n then Some (nat j) else None)"

text \<open>
  A \<open>dict\<close> keeps its keys in insertion order; assigning to a key that is present
  replaces the value where it stands.
\<close>

fun dict_set :: "('k \<times> 'v) list \<Rightarrow> 'k \<Rightarrow> 'v \<Rightarrow> ('k \<times> 'v) list" where
  "dict_set [] k v = [(k, v)]"
| "dict_set ((k', v') # d) k v =
     (if k' = k then (k, v) # d else (k', v') # dict_set d k v)"

subsection \<open>Constants of the class\<close>

definition hz :: nat where
  "hz = 10"

definition pressed_duration :: real where
  "pressed_duration = 0.4"

text \<open>
  \<open>rclpy.duration.Duration(seconds=x)\<close> holds \<open>int(x * 10^9)\<close> nanoseconds; \<open>int\<close>
  truncates towards zero.
\<close>

definition rclpyDuration :: "real \<Rightarrow> int" where
  "rclpyDuration seconds =
     (let x = seconds * 1000000000 in if 0 \<le> x then \<lfloor>x\<rfloor> else \<lceil>x\<rceil>)"

definition movement_bindings :: "int \<Rightarrow> real option" where
  "movement_bindings = map_of
     [(97, - 0.01), (100, 0.01), (119, 0.001), (115, - 0.001), (111, - 1.57), (112, 1.57)]"

definition joint_bindings :: "int \<Rightarrow> joint option" where
  "joint_bindings = map_of
     [(49, JInt 0), (50, JInt 1), (51, JInt 2), (52, JInt 3), (53, JInt 4),
      (54, JInt 5), (55, JInt 6), (56, JStr ''torso''), (57, JStr ''gripper'')]"

definition ord_q :: int where
  "ord_q = 113"

definition ord_r :: int where
  "ord_r = 114"

definition init_state :: teleop where
  "init_state =
     \<lparr>joint_positions_arm = [0.2, - 1.34, - 0.2, 1.94, - 1.57, 1.37, 0.0],
      joint_position_torso = 0.15,
      joint_position_gripper = 0.0,
      selected_joint = None,
      running = True,
      goal_sent = False,
      last_pressed = [],
      display = [],
      submitted = [],
      logged = [],
      result_requests = 0\<rparr>"

subsection \<open>The text window\<close>

definition num_lines :: int where
  "num_lines = 10"

definition read_key :: "int \<Rightarrow> int option" where
  "read_key keycode = (if keycode \<noteq> - 1 then Some keycode else None)"

definition write_line :: "int \<Rightarrow> message \<Rightarrow> teleop \<Rightarrow> res" where
  "write_line lineno msg s =
     (if lineno < 0 \<or> lineno \<ge> num_lines then Inl (ValueError, s)
      else Inr (s\<lparr>display := display s @ [Write_line lineno msg]\<rparr>))"

definition clear :: "teleop \<Rightarrow> teleop" where
  "clear s = s\<lparr>display := display s @ [Clear]\<rparr>"

definition refresh :: "teleop \<Rightarrow> teleop" where
  "refresh s = s\<lparr>display := display s @ [Refresh]\<rparr>"

subsection \<open>Key handling\<close>

text \<open>
  \<open>_key_pressed\<close>. The branch of \<open>q\<close> clears \<open>_running\<close> and sends the process the
  interrupt signal; \<open>sigint\<close> says whether that surfaces as \<open>KeyboardInterrupt\<close> inside
  the call of \<open>os.kill\<close>. \<open>now\<close> is the clock reading taken in the adjustment branch.
\<close>

definition key_pressed :: "bool \<Rightarrow> int \<Rightarrow> int \<Rightarrow> teleop \<Rightarrow> res" where
  "key_pressed sigint now keycode s =
     (if keycode = ord_q then
        (let s1 = s\<lparr>running := False\<rparr>
         in if sigint then Inl (KeyboardInterrupt, s1) else Inr s1)
      else if joint_bindings keycode \<noteq> None then
        (let s1 = s\<lparr>selected_joint := joint_bindings keycode\<rparr>
         in case selected_joint s1 of
              Some (JInt i) \<Rightarrow> write_line 1 (Selected_Joint_int (i + 1)) s1
            | Some (JStr n) \<Rightarrow> write_line 1 (Selected_Joint_str n) s1
            | None \<Rightarrow> Inr s1)
      else if movement_bindings keycode \<noteq> None \<and> selected_joint s \<noteq> None then
        (let s1 = s\<lparr>last_pressed := dict_set (last_pressed s) keycode now\<rparr>
         in case selected_joint s1 of
              Some (JInt i) \<Rightarrow>
                (case py_index (joint_positions_arm s1) i of
                   None \<Rightarrow> Inl (IndexError, s1)
                 | Some j \<Rightarrow> write_line 2 (Joint_Position (i + 1) (joint_positions_arm s1 ! j)) s1)
            | Some (JStr n) \<Rightarrow>
                (if n = ''torso'' then write_line 2 (Torso_Position (joint_position_torso s1)) s1
                 else if n = ''gripper'' then
                   write_line 2 (Gripper_Position (joint_position_gripper s1)) s1
                 else Inr s1)
            | None \<Rightarrow> Inr s1)
      else if keycode = ord_r then
        write_line 1 Reselect_Joint (s\<lparr>selected_joint := None\<rparr>)
      else Inr s)"

subsection \<open>The integrator tick\<close>

text \<open>The keys whose press lies inside the window, in the order of the dictionary.\<close>

definition due_keys :: "int \<Rightarrow> (int \<times> int) list \<Rightarrow> int list" where
  "due_keys now d =
     map fst (filter (\<lambda>(keycode, press_time). now - press_time < rclpyDuration pressed_duration) d)"

text \<open>
  One round of the inner loop of \<open>_set_velocity\<close>. In \<open>xs[i] += m[k]\<close> Python reads
  \<open>xs[i]\<close> before it evaluates \<open>m[k]\<close>, so a bad index raises before a missing key.
\<close>

definition adjust :: "int \<Rightarrow> teleop \<Rightarrow> res" where
  "adjust k s =
     bind_res
       (case selected_joint s of
          Some (JInt i) \<Rightarrow>
            (case py_index (joint_positions_arm s) i of
               None \<Rightarrow> Inl (IndexError, s)
             | Some j \<Rightarrow>
                 (case movement_bindings k of
                    None \<Rightarrow> Inl (KeyError, s)
                  | Some d \<Rightarrow>
                      Inr (s\<lparr>joint_positions_arm :=
                                (joint_positions_arm s)[j := joint_positions_arm s ! j + d]\<rparr>)))
        | Some (JStr n) \<Rightarrow>
            (if n = ''torso'' then
               (case movement_bindings k of
                  None \<Rightarrow> Inl (KeyError, s)
                | Some d \<Rightarrow> Inr (s\<lparr>joint_position_torso := joint_position_torso s + d\<rparr>))
             else if n = ''gripper'' then
               (case movement_bindings k of
                  None \<Rightarrow> Inl (KeyError, s)
                | Some d \<Rightarrow> Inr (s\<lparr>joint_position_gripper := joint_position_gripper s + d\<rparr>))
             else Inr s)
        | None \<Rightarrow> Inr s)
       (\<lambda>s1. Inr (s1\<lparr>goal_sent := True\<rparr>))"

fun adjust_all :: "int list \<Rightarrow> teleop \<Rightarrow> res" where
  "adjust_all [] s = Inr s"
| "adjust_all (k # ks) s = bind_res (adjust k s) (adjust_all ks)"

definition set_velocity :: "int \<Rightarrow> teleop \<Rightarrow> res" where
  "set_velocity now s =
     (let keys = due_keys now (last_pressed s)
      in if keys \<noteq> [] then
           bind_res (adjust_all keys s) (\<lambda>s1. Inr (s1\<lparr>last_pressed := []\<rparr>))
         else Inr s)"

subsection \<open>Goal dispatch\<close>

text \<open>
  \<open>wait_for_server\<close> is taken to return (the controllers are up); \<open>send_goal_async\<close>
  appends the goal, with the name of the action it goes to, to \<open>submitted\<close>.
\<close>

definition send_goal_arm :: "teleop \<Rightarrow> teleop" where
  "send_goal_arm s =
     (let goal_msg =
        \<lparr>joint_names =
           [''arm_1_joint'', ''arm_2_joint'', ''arm_3_joint'', ''arm_4_joint'',
            ''arm_5_joint'', ''arm_6_joint'', ''arm_7_joint''],
         points = [\<lparr>positions = joint_positions_arm s, time_from_start = (1, 0)\<rparr>]\<rparr>
      in s\<lparr>submitted := submitted s @ [(''/arm_controller/follow_joint_trajectory'', goal_msg)]\<rparr>)"

definition send_goal_torso :: "teleop \<Rightarrow> teleop" where
  "send_goal_torso s =
     (let goal_msg =
        \<lparr>joint_names = [''torso_lift_joint''],
         points = [\<lparr>positions = [joint_position_torso s], time_from_start = (1, 0)\<rparr>]\<rparr>
      in s\<lparr>submitted := submitted s @ [(''/torso_controller/follow_joint_trajectory'', goal_msg)]\<rparr>)"

definition send_goal_gripper :: "teleop \<Rightarrow> teleop" where
  "send_goal_gripper s =
     (let goal_msg =
        \<lparr>joint_names = [''gripper_right_finger_joint'', ''gripper_left_finger_joint''],
         points = [\<lparr>positions = [joint_position_gripper s, joint_position_gripper s],
                    time_from_start = (1, 0)\<rparr>]\<rparr>
      in s\<lparr>submitted :=
              submitted s @ [(''/gripper_controller/follow_joint_trajectory'', goal_msg)]\<rparr>)"

definition publish :: "teleop \<Rightarrow> res" where
  "publish s =
     bind_res (write_line 0 Instructions (clear s))
       (\<lambda>s1. let s2 = refresh s1
             in case selected_joint s2 of
                  Some (JInt i) \<Rightarrow> Inr (send_goal_arm s2)
                | Some (JStr n) \<Rightarrow>
                    (if n = ''torso'' then Inr (send_goal_torso s2)
                     else if n = ''gripper'' then Inr (send_goal_gripper s2)
                     else Inr s2)
                | None \<Rightarrow> Inr s2)"

text \<open>The two callbacks; \<open>accepted\<close> and \<open>error_code\<close> are what the future holds.\<close>

definition goal_response_callback :: "bool \<Rightarrow> teleop \<Rightarrow> teleop" where
  "goal_response_callback accepted s =
     (if \<not> accepted then s\<lparr>logged := logged s @ [Info ''Goal rejected'']\<rparr>
      else s\<lparr>logged := logged s @ [Info ''Goal accepted''],
             result_requests := result_requests s + 1\<rparr>)"

definition get_result_callback :: "int \<Rightarrow> teleop \<Rightarrow> teleop" where
  "get_result_callback error_code s = s\<lparr>logged := logged s @ [Info_result error_code]\<rparr>"

subsection \<open>The control loop\<close>

text \<open>The body of the \<open>while\<close> of \<open>run\<close>, without the sleep.\<close>

definition iteration :: "env \<Rightarrow> teleop \<Rightarrow> res" where
  "iteration e s =
     bind_res
       (case read_key (getch e) of
          Some keycode \<Rightarrow> key_pressed (sigint_raises e) (press_now e) keycode s
        | None \<Rightarrow> Inr s)
       (\<lambda>s1. bind_res (set_velocity (tick_now e) s1)
          (\<lambda>s2. if goal_sent s2
                then bind_res (publish s2) (\<lambda>s3. Inr (s3\<lparr>goal_sent := False\<rparr>))
                else Inr s2))"

text \<open>
  \<open>run\<close> over the iterations the environment supplies: it leaves the loop when
  \<open>_running\<close> is false and an exception ends it at once.
\<close>

fun run :: "env list \<Rightarrow> teleop \<Rightarrow> res" where
  "run [] s = Inr s"
| "run (e # es) s = (if running s then bind_res (iteration e s) (run es) else Inr s)"

subsection \<open>Notions used in the statements\<close>

text \<open>
  The values \<open>_selected_joint\<close> can take from the table of the digit keys, and the
  states the loop keeps to: seven arm positions, a selection from the table, and only
  adjustment keys among the recorded presses.
\<close>

definition sel_valid :: "joint option \<Rightarrow> bool" where
  "sel_valid j =
     (case j of
        None \<Rightarrow> True
      | Some (JInt i) \<Rightarrow> 0 \<le> i \<and> i < 7
      | Some (JStr n) \<Rightarrow> n = ''torso'' \<or> n = ''gripper'')"

definition consistent :: "teleop \<Rightarrow> bool" where
  "consistent s =
     (length (joint_positions_arm s) = 7 \<and> sel_valid (selected_joint s) \<and>
      list_all (\<lambda>(k, t). movement_bindings k \<noteq> None) (last_pressed s))"

text \<open>
  \<open>moved d\<close> adds \<open>d\<close> to the position the selection names (and to nothing when the
  selection names none); \<open>delta\<close> is the step bound to a key.
\<close>

definition moved :: "real \<Rightarrow> teleop \<Rightarrow> teleop" where
  "moved d s =
     (case selected_joint s of
        Some (JInt i) \<Rightarrow>
          (case py_index (joint_positions_arm s) i of
             None \<Rightarrow> s
           | Some j \<Rightarrow> s\<lparr>joint_positions_arm :=
                            (joint_positions_arm s)[j := joint_positions_arm s ! j + d]\<rparr>)
      | Some (JStr n) \<Rightarrow>
          (if n = ''torso'' then s\<lparr>joint_position_torso := joint_position_torso s + d\<rparr>
           else if n = ''gripper'' then s\<lparr>joint_position_gripper := joint_position_gripper s + d\<rparr>
           else s)
      | None \<Rightarrow> s)"

definition delta :: "int \<Rightarrow> real" where
  "delta k = (case movement_bindings k of Some d \<Rightarrow> d | None \<Rightarrow> 0)"

text \<open>
  The key handler called on a sequence of key codes, as the loop calls it on the keys it
  reads, leaving out the ticks in between; \<open>digit_group\<close> is the group a digit key
  stands for: \<open>1\<close> to \<open>7\<close> the arm indices 0 to 6, \<open>8\<close> the torso, \<open>9\<close> the gripper.
\<close>

fun key_sequence :: "bool \<Rightarrow> int \<Rightarrow> int list \<Rightarrow> teleop \<Rightarrow> res" where
  "key_sequence sg now [] s = Inr s"
| "key_sequence sg now (k # ks) s = bind_res (key_pressed sg now k s) (key_sequence sg now ks)"

definition digit_group :: "int \<Rightarrow> joint" where
  "digit_group k =
     (if k \<le> 55 then JInt (k - 49) else if k = 56 then JStr ''torso'' else JStr ''gripper'')"

section \<open>Properties\<close>

subsection \<open>Tables and containers\<close>

lemma window_ns: "rclpyDuration pressed_duration = 400000000"
  by (simp add: rclpyDuration_def pressed_duration_def)

lemma movement_keys:
  "movement_bindings k \<noteq> None \<longleftrightarrow> k \<in> {97, 100, 119, 115, 111, 112}"
  by (simp add: movement_bindings_def del: not_None_eq)

lemma joint_keys:
  "joint_bindings k \<noteq> None \<longleftrightarrow> k \<in> {49, 50, 51, 52, 53, 54, 55, 56, 57}"
  by (simp add: joint_bindings_def)

lemma joint_bindings_valid: "sel_valid (joint_bindings k)"
  by (simp add: joint_bindings_def sel_valid_def)

lemma py_index_valid:
  "length xs = 7 \<Longrightarrow> 0 \<le> i \<Longrightarrow> i < 7 \<Longrightarrow> py_index xs i = Some (nat i)"
  by (simp add: py_index_def Let_def)

lemma py_index_less: "py_index xs i = Some j \<Longrightarrow> j < length xs"
  by (auto simp: py_index_def Let_def split: if_splits)

lemma moved_moved: "moved d2 (moved d1 s) = moved (d1 + d2) s"
  by (auto simp: moved_def py_index_def Let_def add.assoc split: option.splits joint.splits)

lemma moved_fields [simp]:
  "selected_joint (moved d s) = selected_joint s"
  "last_pressed (moved d s) = last_pressed s"
  "goal_sent (moved d s) = goal_sent s"
  "running (moved d s) = running s"
  "display (moved d s) = display s"
  "submitted (moved d s) = submitted s"
  "logged (moved d s) = logged s"
  "result_requests (moved d s) = result_requests s"
  "length (joint_positions_arm (moved d s)) = length (joint_positions_arm s)"
  by (simp_all add: moved_def split: option.splits joint.splits)

lemma moved_goal_sent: "moved d (s\<lparr>goal_sent := b\<rparr>) = (moved d s)\<lparr>goal_sent := b\<rparr>"
  by (simp add: moved_def split: option.splits joint.splits)

lemma adjust_ok:
  assumes "sel_valid (selected_joint s)" "length (joint_positions_arm s) = 7"
    and "movement_bindings k \<noteq> None"
  shows "adjust k s = Inr ((moved (delta k) s)\<lparr>goal_sent := True\<rparr>)"
  using assms
  by (auto simp: adjust_def moved_def delta_def bind_res_def sel_valid_def py_index_valid
           split: option.splits joint.splits)

lemma adjust_all_ok:
  assumes "sel_valid (selected_joint s)" "length (joint_positions_arm s) = 7"
    and "\<forall>k \<in> set ks. movement_bindings k \<noteq> None"
  shows "adjust_all ks s =
           Inr (if ks = [] then s else (moved (sum_list (map delta ks)) s)\<lparr>goal_sent := True\<rparr>)"
  using assms
proof (induction ks arbitrary: s)
  case Nil
  then show ?case by simp
next
  case (Cons k ks)
  let ?s1 = "(moved (delta k) s)\<lparr>goal_sent := True\<rparr>"
  have step: "adjust k s = Inr ?s1"
    using Cons.prems by (simp add: adjust_ok)
  have "adjust_all ks ?s1 =
          Inr (if ks = [] then ?s1 else (moved (sum_list (map delta ks)) ?s1)\<lparr>goal_sent := True\<rparr>)"
    using Cons.prems by (intro Cons.IH) simp_all
  then show ?case
    using step by (simp add: bind_res_def moved_goal_sent moved_moved)
qed

lemma due_keys_bound:
  "list_all (\<lambda>(k, t). movement_bindings k \<noteq> None) d \<Longrightarrow>
   \<forall>k \<in> set (due_keys now d). movement_bindings k \<noteq> None"
  by (auto simp: due_keys_def list_all_iff simp del: not_None_eq)

lemma set_velocity_ok:
  assumes "consistent s"
  shows "set_velocity now s =
           Inr (if due_keys now (last_pressed s) = [] then s
                else (moved (sum_list (map delta (due_keys now (last_pressed s)))) s)
                       \<lparr>goal_sent := True, last_pressed := []\<rparr>)"
proof -
  have "adjust_all (due_keys now (last_pressed s)) s =
          Inr (if due_keys now (last_pressed s) = [] then s
               else (moved (sum_list (map delta (due_keys now (last_pressed s)))) s)
                      \<lparr>goal_sent := True\<rparr>)"
    using assms by (intro adjust_all_ok due_keys_bound) (simp_all add: consistent_def)
  then show ?thesis
    by (simp add: set_velocity_def Let_def bind_res_def)
qed

subsection \<open>What a tick can do to the state\<close>

lemma moved_zero: "moved 0 s = s"
  by (simp add: moved_def split: option.splits joint.splits)

lemma moved_last_pressed: "moved d (s\<lparr>last_pressed := l\<rparr>) = (moved d s)\<lparr>last_pressed := l\<rparr>"
  by (simp add: moved_def split: option.splits joint.splits)

lemma adjust_shape: "\<exists>d b. state_of (adjust k s) = (moved d s)\<lparr>goal_sent := b\<rparr>"
proof (cases "raised (adjust k s) = None")
  case True
  then have "state_of (adjust k s) = (moved (delta k) s)\<lparr>goal_sent := True\<rparr>"
    by (auto simp: adjust_def moved_def delta_def bind_res_def state_of_def raised_def
             split: option.splits joint.splits if_splits)
  then show ?thesis by blast
next
  case False
  then have "state_of (adjust k s) = (moved 0 s)\<lparr>goal_sent := goal_sent s\<rparr>"
    by (auto simp: adjust_def moved_zero bind_res_def state_of_def raised_def
             split: option.splits joint.splits if_splits)
  then show ?thesis by blast
qed

lemma adjust_all_shape: "\<exists>d b. state_of (adjust_all ks s) = (moved d s)\<lparr>goal_sent := b\<rparr>"
proof (induction ks arbitrary: s)
  case Nil
  have "state_of (adjust_all [] s) = (moved 0 s)\<lparr>goal_sent := goal_sent s\<rparr>"
    by (simp add: state_of_def moved_zero)
  then show ?case by blast
next
  case (Cons k ks)
  obtain d b where first: "state_of (adjust k s) = (moved d s)\<lparr>goal_sent := b\<rparr>"
    using adjust_shape by blast
  show ?case
  proof (cases "adjust k s")
    case (Inl x)
    then have "state_of (adjust_all (k # ks) s) = state_of (adjust k s)"
      by (simp add: bind_res_def)
    with first show ?thesis by metis
  next
    case (Inr s1)
    then have s1: "s1 = (moved d s)\<lparr>goal_sent := b\<rparr>"
      using first by (simp add: state_of_def)
    obtain d' b' where "state_of (adjust_all ks s1) = (moved d' s1)\<lparr>goal_sent := b'\<rparr>"
      using Cons.IH by blast
    then have "state_of (adjust_all (k # ks) s) = (moved (d + d') s)\<lparr>goal_sent := b'\<rparr>"
      using Inr s1 by (simp add: bind_res_def moved_goal_sent moved_moved)
    then show ?thesis by blast
  qed
qed

lemma set_velocity_shape:
  "\<exists>d b l. state_of (set_velocity now s) = (moved d s)\<lparr>goal_sent := b, last_pressed := l\<rparr>"
proof (cases "due_keys now (last_pressed s) = []")
  case True
  then have "state_of (set_velocity now s) =
               (moved 0 s)\<lparr>goal_sent := goal_sent s, last_pressed := last_pressed s\<rparr>"
    by (simp add: set_velocity_def state_of_def moved_zero)
  then show ?thesis by blast
next
  case False
  obtain d b where
    all: "state_of (adjust_all (due_keys now (last_pressed s)) s) = (moved d s)\<lparr>goal_sent := b\<rparr>"
    using adjust_all_shape by blast
  show ?thesis
  proof (cases "adjust_all (due_keys now (last_pressed s)) s")
    case (Inl x)
    then have "state_of (set_velocity now s) =
                 (moved d s)\<lparr>goal_sent := b, last_pressed := last_pressed s\<rparr>"
      using False all by (simp add: set_velocity_def bind_res_def)
    then show ?thesis by blast
  next
    case (Inr s1)
    then have "state_of (set_velocity now s) = (moved d s)\<lparr>goal_sent := b, last_pressed := []\<rparr>"
      using False all by (simp add: set_velocity_def bind_res_def state_of_def)
    then show ?thesis by blast
  qed
qed

lemma moved_none: "selected_joint s = None \<Longrightarrow> moved d s = s"
  by (simp add: moved_def)

lemma moved_int:
  assumes "selected_joint s = Some (JInt i)"
  shows "joint_position_torso (moved d s) = joint_position_torso s"
    and "joint_position_gripper (moved d s) = joint_position_gripper s"
    and "py_index (joint_positions_arm s) i \<noteq> Some j \<Longrightarrow>
           joint_positions_arm (moved d s) ! j = joint_positions_arm s ! j"
  using assms by (auto simp: moved_def split: option.splits)

lemma moved_str:
  assumes "selected_joint s = Some (JStr n)"
  shows "joint_positions_arm (moved d s) = joint_positions_arm s"
    and "n \<noteq> ''torso'' \<Longrightarrow> joint_position_torso (moved d s) = joint_position_torso s"
    and "n \<noteq> ''gripper'' \<Longrightarrow> joint_position_gripper (moved d s) = joint_position_gripper s"
  using assms by (auto simp: moved_def)

subsection \<open>Facts about the tick and the loop\<close>

lemma due_keys_Nil [simp]: "due_keys now [] = []"
  by (simp add: due_keys_def)

lemma due_keys_Cons:
  "due_keys now ((k, T) # d) = (if now - T < 400000000 then k # due_keys now d else due_keys now d)"
  by (simp add: due_keys_def window_ns)

lemma due_keys_append: "due_keys now (d1 @ d2) = due_keys now d1 @ due_keys now d2"
  by (simp add: due_keys_def)

lemma due_keys_empty_iff:
  "due_keys now d = [] \<longleftrightarrow> (\<forall>(k, T) \<in> set d. 400000000 \<le> now - T)"
  by (auto simp: due_keys_def window_ns filter_empty_conv)

lemma due_keys_nonempty_iff:
  "due_keys now d \<noteq> [] \<longleftrightarrow> (\<exists>(k, T) \<in> set d. now - T < 400000000)"
  by (auto simp: due_keys_def window_ns filter_empty_conv)

lemma set_velocity_positions:
  assumes "consistent s"
  shows "\<exists>s'. set_velocity now s = Inr s' \<and>
           selected_joint s' = selected_joint s \<and>
           joint_positions_arm s' =
             joint_positions_arm (moved (sum_list (map delta (due_keys now (last_pressed s)))) s) \<and>
           joint_position_torso s' =
             joint_position_torso (moved (sum_list (map delta (due_keys now (last_pressed s)))) s) \<and>
           joint_position_gripper s' =
             joint_position_gripper (moved (sum_list (map delta (due_keys now (last_pressed s)))) s)"
  using set_velocity_ok [OF assms, of now] by (simp add: moved_zero)

lemma publish_none:
  "selected_joint s = None \<Longrightarrow> submitted (state_of (publish s)) = submitted s"
  by (simp add: publish_def write_line_def num_lines_def clear_def refresh_def bind_res_def
        state_of_def)

lemma moved_int_arm:
  assumes "selected_joint s = Some (JInt i)" "0 \<le> i" "i < int (length (joint_positions_arm s))"
  shows "joint_positions_arm (moved d s) =
           (joint_positions_arm s)[nat i := joint_positions_arm s ! nat i + d]"
  using assms by (simp add: moved_def py_index_def)

lemma moved_torso:
  assumes "selected_joint s = Some (JStr ''torso'')"
  shows "joint_position_torso (moved d s) = joint_position_torso s + d"
  using assms by (simp add: moved_def)

lemma moved_gripper:
  assumes "selected_joint s = Some (JStr ''gripper'')"
  shows "joint_position_gripper (moved d s) = joint_position_gripper s + d"
  using assms by (simp add: moved_def)

lemma delta_bound:
  assumes "movement_bindings k \<noteq> None"
  shows "movement_bindings k = Some (delta k)" and "delta k \<noteq> 0"
proof -
  have "k \<in> {97, 100, 119, 115, 111, 112}"
    using assms by (simp only: movement_keys)
  then show "movement_bindings k = Some (delta k)" and "delta k \<noteq> 0"
    by (auto simp: delta_def movement_bindings_def)
qed

lemma consistent_last_pressed:
  assumes "consistent s" and "set d \<subseteq> set (last_pressed s)"
  shows "consistent (s\<lparr>last_pressed := d\<rparr>)"
  using assms by (auto simp: consistent_def list_all_iff)

lemma dict_set_list_all: "list_all P d \<Longrightarrow> P (k, v) \<Longrightarrow> list_all P (dict_set d k v)"
  by (induction d) auto

lemma consistent_moved: "consistent s \<Longrightarrow> consistent (moved d s)"
  by (simp add: consistent_def)

lemma write_line_ok:
  "0 \<le> n \<Longrightarrow> n < 10 \<Longrightarrow> write_line n msg s = Inr (s\<lparr>display := display s @ [Write_line n msg]\<rparr>)"
  by (simp add: write_line_def num_lines_def)

lemma consistent_display: "consistent (s\<lparr>display := x\<rparr>) = consistent s"
  by (simp add: consistent_def)

lemma key_pressed_consistent:
  assumes "consistent s"
  shows "consistent (state_of (key_pressed sg now k s)) \<and>
         raised (key_pressed sg now k s) \<in> {None, Some KeyboardInterrupt}"
proof -
  have sel: "sel_valid (selected_joint s)" and len: "length (joint_positions_arm s) = 7"
    and keys: "\<forall>k \<in> fst ` set (last_pressed s). movement_bindings k \<noteq> None"
    using assms by (auto simp: consistent_def list_all_iff simp del: not_None_eq)
  consider (quit) "k = ord_q"
    | (select) "k \<noteq> ord_q" "joint_bindings k \<noteq> None"
    | (move) "k \<noteq> ord_q" "joint_bindings k = None" "movement_bindings k \<noteq> None"
        "selected_joint s \<noteq> None"
    | (reselect) "k \<noteq> ord_q" "joint_bindings k = None"
        "\<not> (movement_bindings k \<noteq> None \<and> selected_joint s \<noteq> None)" "k = ord_r"
    | (other) "k \<noteq> ord_q" "joint_bindings k = None"
        "\<not> (movement_bindings k \<noteq> None \<and> selected_joint s \<noteq> None)" "k \<noteq> ord_r"
    by blast
  then show ?thesis
  proof cases
    case quit
    then show ?thesis
      using assms by (simp add: key_pressed_def Let_def state_of_def raised_def consistent_def)
  next
    case select
    have v: "sel_valid (joint_bindings k)" by (rule joint_bindings_valid)
    have c: "consistent (s\<lparr>selected_joint := joint_bindings k\<rparr>)"
      using assms v by (simp add: consistent_def)
    show ?thesis
      using select c
      by (auto simp: key_pressed_def Let_def write_line_ok state_of_def raised_def
            consistent_display split: option.splits joint.splits simp del: not_None_eq)
  next
    case move
    let ?s1 = "s\<lparr>last_pressed := dict_set (last_pressed s) k now\<rparr>"
    have "list_all (\<lambda>(k, t). movement_bindings k \<noteq> None) (dict_set (last_pressed s) k now)"
      using assms move(3) by (intro dict_set_list_all) (simp_all add: consistent_def del: not_None_eq)
    then have c: "consistent ?s1"
      using sel len by (simp add: consistent_def del: not_None_eq)
    have idx: "py_index (joint_positions_arm s) i = Some (nat i)"
      if "selected_joint s = Some (JInt i)" for i
      using that sel len by (simp add: sel_valid_def py_index_valid)
    show ?thesis
      using move c idx
      by (auto simp: key_pressed_def Let_def write_line_ok state_of_def raised_def
            consistent_display split: option.splits joint.splits simp del: not_None_eq)
  next
    case reselect
    have c: "consistent (s\<lparr>selected_joint := None\<rparr>)"
      using assms by (simp add: consistent_def sel_valid_def)
    have r: "movement_bindings ord_r = None"
      by (simp add: movement_bindings_def ord_r_def)
    show ?thesis
      using reselect(1,2,4) c r
      by (simp add: key_pressed_def write_line_ok state_of_def raised_def consistent_display
            del: not_None_eq)
  next
    case other
    then have "key_pressed sg now k s = Inr s"
      by (auto simp: key_pressed_def simp del: not_None_eq)
    then show ?thesis
      using assms by (simp add: state_of_def raised_def)
  qed
qed

lemma set_velocity_consistent:
  assumes "consistent s"
  shows "consistent (state_of (set_velocity now s)) \<and> raised (set_velocity now s) = None"
proof -
  have "consistent ((moved d s)\<lparr>goal_sent := True, last_pressed := []\<rparr>)" for d
    using consistent_moved [OF assms, of d] by (simp add: consistent_def)
  then show ?thesis
    using assms set_velocity_ok [OF assms, of now] by (simp add: state_of_def raised_def)
qed

lemma publish_fields:
  "\<exists>s'. publish s = Inr s' \<and>
     joint_positions_arm s' = joint_positions_arm s \<and>
     joint_position_torso s' = joint_position_torso s \<and>
     joint_position_gripper s' = joint_position_gripper s \<and>
     selected_joint s' = selected_joint s \<and>
     last_pressed s' = last_pressed s \<and>
     goal_sent s' = goal_sent s \<and>
     running s' = running s"
  by (simp add: publish_def write_line_def num_lines_def clear_def refresh_def bind_res_def
        Let_def send_goal_arm_def send_goal_torso_def send_goal_gripper_def
        split: option.splits joint.splits)

lemma publish_consistent:
  assumes "consistent s"
  shows "consistent (state_of (publish s)) \<and> raised (publish s) = None"
proof -
  obtain s' where "publish s = Inr s'" "joint_positions_arm s' = joint_positions_arm s"
    "selected_joint s' = selected_joint s" "last_pressed s' = last_pressed s"
    using publish_fields by blast
  then show ?thesis
    using assms by (simp add: state_of_def raised_def consistent_def)
qed

lemma bind_res_Inl [simp]: "bind_res (Inl x) f = Inl x"
  by (simp add: bind_res_def)

lemma bind_res_Inr [simp]: "bind_res (Inr s) f = f s"
  by (simp add: bind_res_def)

lemma state_of_simps [simp]: "state_of (Inl (x, s)) = s" "state_of (Inr s) = s"
  by (simp_all add: state_of_def)

lemma raised_simps [simp]: "raised (Inl (x, s)) = Some x" "raised (Inr s) = None"
  by (simp_all add: raised_def)

lemma res_cases:
  obtains (ok) s' where "r = Inr s'" | (exn) x s' where "r = Inl (x, s')"
  by (cases r) auto

lemma tick_and_dispatch_consistent:
  assumes "consistent s1"
  shows "consistent (state_of (bind_res (set_velocity now s1)
           (\<lambda>s2. if goal_sent s2
                 then bind_res (publish s2) (\<lambda>s3. Inr (s3\<lparr>goal_sent := False\<rparr>))
                 else Inr s2))) \<and>
         raised (bind_res (set_velocity now s1)
           (\<lambda>s2. if goal_sent s2
                 then bind_res (publish s2) (\<lambda>s3. Inr (s3\<lparr>goal_sent := False\<rparr>))
                 else Inr s2)) = None"
proof -
  obtain s2 where s2: "set_velocity now s1 = Inr s2" "consistent s2"
    using set_velocity_consistent [OF assms, of now]
    by (cases "set_velocity now s1" rule: res_cases) auto
  obtain s3 where s3: "publish s2 = Inr s3" "consistent s3"
    using publish_consistent [OF s2(2)]
    by (cases "publish s2" rule: res_cases) auto
  have "consistent (s3\<lparr>goal_sent := False\<rparr>)"
    using s3(2) by (simp add: consistent_def)
  then show ?thesis
    using s2 s3 by simp
qed

lemma iteration_consistent:
  assumes "consistent s"
  shows "consistent (state_of (iteration e s)) \<and>
         raised (iteration e s) \<in> {None, Some KeyboardInterrupt}"
proof (cases "read_key (getch e)")
  case None
  then show ?thesis
    using tick_and_dispatch_consistent [OF assms, of "tick_now e"]
    by (simp add: iteration_def)
next
  case (Some k)
  let ?r = "key_pressed (sigint_raises e) (press_now e) k s"
  have kp: "consistent (state_of ?r)" "raised ?r \<in> {None, Some KeyboardInterrupt}"
    using key_pressed_consistent [OF assms] by blast+
  show ?thesis
  proof (cases ?r rule: res_cases)
    case (ok s1)
    then show ?thesis
      using kp(1) Some tick_and_dispatch_consistent [of s1 "tick_now e"]
      by (simp add: iteration_def)
  next
    case (exn x s1)
    then show ?thesis
      using kp Some by (simp add: iteration_def)
  qed
qed

lemma run_consistent:
  assumes "consistent s"
  shows "consistent (state_of (run es s)) \<and> raised (run es s) \<in> {None, Some KeyboardInterrupt}"
  using assms
proof (induction es arbitrary: s)
  case Nil
  then show ?case by simp
next
  case (Cons e es)
  show ?case
  proof (cases "running s")
    case False
    then show ?thesis using Cons.prems by simp
  next
    case True
    have it: "consistent (state_of (iteration e s))"
      "raised (iteration e s) \<in> {None, Some KeyboardInterrupt}"
      using iteration_consistent [OF Cons.prems] by blast+
    show ?thesis
    proof (cases "iteration e s" rule: res_cases)
      case (ok s1)
      then show ?thesis
        using True it(1) Cons.IH [of s1] by simp
    next
      case (exn x s1)
      then show ?thesis
        using True it by simp
    qed
  qed
qed

lemma consistent_init: "consistent init_state"
  by (simp add: consistent_def init_state_def sel_valid_def)

lemma digit_cases:
  assumes "49 \<le> k" "k \<le> 57"
  shows "k \<in> {49, 50, 51, 52, 53, 54, 55, 56, 57 :: int}"
  using assms by auto

lemma digit_binding:
  assumes "49 \<le> k" "k \<le> 57"
  shows "joint_bindings k = Some (digit_group k)" and "k \<noteq> ord_q" and "k \<noteq> - 1"
  using digit_cases [OF assms] by (auto simp: joint_bindings_def digit_group_def ord_q_def)

lemma digit_key_pressed:
  assumes "49 \<le> k" "k \<le> 57"
  shows "\<exists>s'. key_pressed sg now k s = Inr s' \<and>
           selected_joint s' = Some (digit_group k) \<and>
           joint_positions_arm s' = joint_positions_arm s \<and>
           joint_position_torso s' = joint_position_torso s \<and>
           joint_position_gripper s' = joint_position_gripper s \<and>
           last_pressed s' = last_pressed s \<and>
           goal_sent s' = goal_sent s \<and>
           running s' = running s \<and>
           submitted s' = submitted s"
  using digit_binding [OF assms]
  by (simp add: key_pressed_def Let_def write_line_ok digit_group_def)

lemma digits_key_sequence:
  assumes "\<forall>k \<in> set ks. 49 \<le> k \<and> k \<le> 57"
  shows "\<exists>s'. key_sequence sg now ks s = Inr s' \<and>
           selected_joint s' = (if ks = [] then selected_joint s else Some (digit_group (last ks))) \<and>
           joint_positions_arm s' = joint_positions_arm s \<and>
           joint_position_torso s' = joint_position_torso s \<and>
           joint_position_gripper s' = joint_position_gripper s"
  using assms
proof (induction ks arbitrary: s)
  case Nil
  then show ?case by simp
next
  case (Cons k ks)
  then have k: "49 \<le> k" "k \<le> 57" by simp_all
  obtain s1 where s1: "key_pressed sg now k s = Inr s1"
    "selected_joint s1 = Some (digit_group k)"
    "joint_positions_arm s1 = joint_positions_arm s"
    "joint_position_torso s1 = joint_position_torso s"
    "joint_position_gripper s1 = joint_position_gripper s"
    using digit_key_pressed [OF k, of sg now s] by blast
  obtain s' where s': "key_sequence sg now ks s1 = Inr s'"
    "selected_joint s' = (if ks = [] then selected_joint s1 else Some (digit_group (last ks)))"
    "joint_positions_arm s' = joint_positions_arm s1"
    "joint_position_torso s' = joint_position_torso s1"
    "joint_position_gripper s' = joint_position_gripper s1"
    using Cons.IH [of s1] Cons.prems by auto
  show ?case
    using s1 s' by simp
qed

lemma digit_iteration:
  assumes "49 \<le> getch e" "getch e \<le> 57" and "last_pressed s = []"
  shows "\<exists>s'. iteration e s = Inr s' \<and>
           selected_joint s' = Some (digit_group (getch e)) \<and>
           joint_positions_arm s' = joint_positions_arm s \<and>
           joint_position_torso s' = joint_position_torso s \<and>
           joint_position_gripper s' = joint_position_gripper s \<and>
           last_pressed s' = [] \<and>
           running s' = running s"
proof -
  obtain s1 where s1: "key_pressed (sigint_raises e) (press_now e) (getch e) s = Inr s1"
    "selected_joint s1 = Some (digit_group (getch e))"
    "joint_positions_arm s1 = joint_positions_arm s"
    "joint_position_torso s1 = joint_position_torso s"
    "joint_position_gripper s1 = joint_position_gripper s"
    "last_pressed s1 = last_pressed s" "running s1 = running s"
    using digit_key_pressed [OF assms(1,2), of "sigint_raises e" "press_now e" s] by blast
  have tick: "set_velocity (tick_now e) s1 = Inr s1"
    using s1(6) assms(3) by (simp add: set_velocity_def)
  obtain s3 where s3: "publish s1 = Inr s3"
    "joint_positions_arm s3 = joint_positions_arm s1"
    "joint_position_torso s3 = joint_position_torso s1"
    "joint_position_gripper s3 = joint_position_gripper s1"
    "selected_joint s3 = selected_joint s1" "last_pressed s3 = last_pressed s1"
    "running s3 = running s1"
    using publish_fields [of s1] by blast
  have key: "read_key (getch e) = Some (getch e)"
    using digit_binding(3) [OF assms(1,2)] by (simp add: read_key_def)
  show ?thesis
    using key s1 tick s3 assms(3) by (simp add: iteration_def)
qed

lemma digits_run:
  assumes "\<forall>e \<in> set es. 49 \<le> getch e \<and> getch e \<le> 57" and "last_pressed s = []" and "running s"
  shows "\<exists>s'. run es s = Inr s' \<and>
           selected_joint s' =
             (if es = [] then selected_joint s else Some (digit_group (getch (last es)))) \<and>
           joint_positions_arm s' = joint_positions_arm s \<and>
           joint_position_torso s' = joint_position_torso s \<and>
           joint_position_gripper s' = joint_position_gripper s"
  using assms
proof (induction es arbitrary: s)
  case Nil
  then show ?case by simp
next
  case (Cons e es)
  then have k: "49 \<le> getch e" "getch e \<le> 57" by simp_all
  obtain s1 where s1: "iteration e s = Inr s1"
    "selected_joint s1 = Some (digit_group (getch e))"
    "joint_positions_arm s1 = joint_positions_arm s"
    "joint_position_torso s1 = joint_position_torso s"
    "joint_position_gripper s1 = joint_position_gripper s"
    "last_pressed s1 = []" "running s1 = running s"
    using digit_iteration [OF k Cons.prems(2)] by blast
  obtain s' where s': "run es s1 = Inr s'"
    "selected_joint s' =
       (if es = [] then selected_joint s1 else Some (digit_group (getch (last es))))"
    "joint_positions_arm s' = joint_positions_arm s1"
    "joint_position_torso s' = joint_position_torso s1"
    "joint_position_gripper s' = joint_position_gripper s1"
    using Cons.IH [of s1] Cons.prems s1(6,7) by auto
  show ?case
    using s1 s' Cons.prems(3) by simp
qed

lemma run_stopped: "\<not> running s \<Longrightarrow> run es s = Inr s"
  by (cases es) simp_all

lemma iteration_quiet:
  assumes "iteration e s = Inr s'"
  shows "\<not> goal_sent s' \<and> (\<forall>(k, T) \<in> set (last_pressed s'). 400000000 \<le> tick_now e - T)"
proof -
  obtain s1 where s1:
    "bind_res (set_velocity (tick_now e) s1)
       (\<lambda>s2. if goal_sent s2
             then bind_res (publish s2) (\<lambda>s3. Inr (s3\<lparr>goal_sent := False\<rparr>))
             else Inr s2) = Inr s'"
    using assms by (auto simp: iteration_def bind_res_def split: sum.splits option.splits)
  then obtain s2 where s2: "set_velocity (tick_now e) s1 = Inr s2"
    and rest: "(if goal_sent s2
                then bind_res (publish s2) (\<lambda>s3. Inr (s3\<lparr>goal_sent := False\<rparr>))
                else Inr s2) = Inr s'"
    by (auto simp: bind_res_def split: sum.splits)
  have quiet: "\<forall>(k, T) \<in> set (last_pressed s2). 400000000 \<le> tick_now e - T"
  proof (cases "due_keys (tick_now e) (last_pressed s1) = []")
    case True
    then have "s2 = s1" using s2 by (simp add: set_velocity_def)
    then show ?thesis using True by (simp add: due_keys_empty_iff)
  next
    case False
    then have "last_pressed s2 = []"
      using s2 by (auto simp: set_velocity_def bind_res_def split: sum.splits)
    then show ?thesis by simp
  qed
  obtain s3 where s3: "publish s2 = Inr s3" "last_pressed s3 = last_pressed s2"
    using publish_fields [of s2] by blast
  show ?thesis
    using rest quiet s3 by (auto split: if_splits)
qed

lemma loop_head_quiet:
  assumes "run es s = Inr s'" and "\<forall>e \<in> set es. tick_now e \<le> t"
    and "\<not> goal_sent s" and "\<forall>(k, T) \<in> set (last_pressed s). 400000000 \<le> t - T"
  shows "\<not> goal_sent s' \<and> (\<forall>(k, T) \<in> set (last_pressed s'). 400000000 \<le> t - T)"
  using assms
proof (induction es arbitrary: s)
  case Nil
  then show ?case by simp
next
  case (Cons e es)
  show ?case
  proof (cases "running s")
    case False
    then show ?thesis using Cons.prems by simp
  next
    case True
    then obtain s1 where s1: "iteration e s = Inr s1" "run es s1 = Inr s'"
      using Cons.prems(1) by (auto simp: bind_res_def split: sum.splits)
    have q: "\<not> goal_sent s1" "\<forall>(k, T) \<in> set (last_pressed s1). 400000000 \<le> tick_now e - T"
      using iteration_quiet [OF s1(1)] by blast+
    have "tick_now e \<le> t" using Cons.prems(2) by simp
    then have "\<forall>(k, T) \<in> set (last_pressed s1). 400000000 \<le> t - T"
      using q(2) by fastforce
    then show ?thesis
      using Cons.IH [OF s1(2)] Cons.prems(2) q(1) by simp
  qed
qed

lemma publish_submitted:
  assumes "consistent s"
  shows "\<exists>s'. publish s = Inr s' \<and> running s' = running s \<and>
           (submitted s' = submitted s) = (selected_joint s = None)"
  using assms
  by (auto simp: publish_def write_line_def num_lines_def clear_def refresh_def bind_res_def
        Let_def send_goal_arm_def send_goal_torso_def send_goal_gripper_def consistent_def
        sel_valid_def split: option.splits joint.splits)

lemma set_velocity_fields:
  assumes "consistent s"
  shows "\<exists>s'. set_velocity now s = Inr s' \<and> consistent s' \<and>
           running s' = running s \<and> submitted s' = submitted s \<and>
           selected_joint s' = selected_joint s \<and>
           goal_sent s' =
             (goal_sent s \<or> (\<exists>(k, T) \<in> set (last_pressed s). now - T < 400000000))"
proof (cases "due_keys now (last_pressed s) = []")
  case True
  then have "set_velocity now s = Inr s"
    using set_velocity_ok [OF assms, of now] by simp
  moreover have "\<not> (\<exists>(k, T) \<in> set (last_pressed s). now - T < 400000000)"
    using True by (simp add: due_keys_nonempty_iff [symmetric])
  ultimately show ?thesis
    using assms by simp
next
  case False
  let ?s' = "(moved (sum_list (map delta (due_keys now (last_pressed s)))) s)
               \<lparr>goal_sent := True, last_pressed := []\<rparr>"
  have eq: "set_velocity now s = Inr ?s'"
    using False set_velocity_ok [OF assms, of now] by simp
  have c: "consistent ?s'"
    using set_velocity_consistent [OF assms, of now] eq by simp
  have due: "\<exists>(k, T) \<in> set (last_pressed s). now - T < 400000000"
    using False by (simp add: due_keys_nonempty_iff [symmetric])
  show ?thesis
    using eq c due by simp
qed

lemma tick_and_dispatch_submitted:
  assumes "consistent s1"
  shows "\<exists>s4. bind_res (set_velocity now s1)
                 (\<lambda>s2. if goal_sent s2
                       then bind_res (publish s2) (\<lambda>s3. Inr (s3\<lparr>goal_sent := False\<rparr>))
                       else Inr s2) = Inr s4 \<and>
              running s4 = running s1 \<and>
              ((submitted s4 \<noteq> submitted s1) =
               (selected_joint s1 \<noteq> None \<and>
                (goal_sent s1 \<or> (\<exists>(k, T) \<in> set (last_pressed s1). now - T < 400000000))))"
proof -
  obtain s2 where s2: "set_velocity now s1 = Inr s2" "consistent s2"
    "running s2 = running s1" "submitted s2 = submitted s1"
    "selected_joint s2 = selected_joint s1"
    "goal_sent s2 =
       (goal_sent s1 \<or> (\<exists>(k, T) \<in> set (last_pressed s1). now - T < 400000000))"
    using set_velocity_fields [OF assms, of now] by auto
  show ?thesis
  proof (cases "goal_sent s2")
    case False
    then show ?thesis
      using s2 by simp
  next
    case True
    obtain s3 where s3: "publish s2 = Inr s3" "running s3 = running s2"
      "(submitted s3 = submitted s2) = (selected_joint s2 = None)"
      using publish_submitted [OF s2(2)] by auto
    have "bind_res (set_velocity now s1)
            (\<lambda>s2. if goal_sent s2
                  then bind_res (publish s2) (\<lambda>s3. Inr (s3\<lparr>goal_sent := False\<rparr>))
                  else Inr s2) = Inr (s3\<lparr>goal_sent := False\<rparr>)"
      using s2(1) s3(1) True by simp
    moreover have "running (s3\<lparr>goal_sent := False\<rparr>) = running s1"
      using s3(2) s2(3) by simp
    moreover have "(submitted (s3\<lparr>goal_sent := False\<rparr>) \<noteq> submitted s1) =
               (selected_joint s1 \<noteq> None \<and>
                (goal_sent s1 \<or> (\<exists>(k, T) \<in> set (last_pressed s1). now - T < 400000000)))"
      using s3(3) s2(4,5,6) True by simp
    ultimately show ?thesis
      by (intro exI conjI)
  qed
qed

subsection \<open>The claims\<close>

text \<open>
  Claim C1, as stated, says that an adjustment key pressed while nothing is selected has
  its timestamp stored. In the initial state, where nothing is selected, the key
  \<open>a\<close> leaves the dictionary of presses empty.
\<close>

theorem unselected_press_recorded_counterexample:
  "selected_joint init_state = None \<and> movement_bindings 97 \<noteq> None \<and>
   last_pressed (state_of (key_pressed False 5 97 init_state)) = []"
  by (simp add: key_pressed_def init_state_def state_of_def joint_bindings_def
        movement_bindings_def ord_q_def ord_r_def)

text \<open>
  Claim C1, amended. An adjustment key pressed while nothing is selected is not
  recorded: the key handler returns the state as it found it, so no later tick can see
  the press and there is nothing of it to clear. Besides, a tick taken while nothing is
  selected changes no position, whatever presses are on record.
\<close>

theorem unselected_press_ignored:
  assumes "selected_joint s = None" and "movement_bindings k \<noteq> None"
  shows "key_pressed sg now k s = Inr s \<and>
         joint_positions_arm (state_of (set_velocity t s)) = joint_positions_arm s \<and>
         joint_position_torso (state_of (set_velocity t s)) = joint_position_torso s \<and>
         joint_position_gripper (state_of (set_velocity t s)) = joint_position_gripper s"
proof -
  have k: "k \<in> {97, 100, 119, 115, 111, 112}"
    using assms(2) by (simp only: movement_keys)
  then have "joint_bindings k = None" "k \<noteq> ord_q" "k \<noteq> ord_r"
    by (auto simp: joint_bindings_def ord_q_def ord_r_def)
  then have a: "key_pressed sg now k s = Inr s"
    using assms by (simp add: key_pressed_def)
  obtain d b l where "state_of (set_velocity t s) = (moved d s)\<lparr>goal_sent := b, last_pressed := l\<rparr>"
    using set_velocity_shape by blast
  then have "state_of (set_velocity t s) = s\<lparr>goal_sent := b, last_pressed := l\<rparr>"
    using assms(1) by (simp add: moved_none)
  then show ?thesis using a by simp
qed

text \<open>
  The amended claim C1 at the key \<open>d\<close> in the initial state.
\<close>

theorem unselected_press_ignored_witness:
  "selected_joint init_state = None \<and> movement_bindings 100 \<noteq> None \<and>
   key_pressed False 5 100 init_state = Inr init_state \<and>
   joint_position_torso (state_of (set_velocity 7 init_state)) = joint_position_torso init_state"
proof -
  have a: "selected_joint init_state = None" by (simp add: init_state_def)
  have b: "movement_bindings 100 \<noteq> None" by (simp add: movement_bindings_def)
  show ?thesis
    using a b unselected_press_ignored [OF a b, of False 5 7] by simp
qed

text \<open>
  Claim C2, as stated, says that the dictionary of presses is empty after every tick.
  A press of \<open>a\<close> at time 0 is still on record after a tick at 0.4 s, which finds no
  press inside the window; the same happens in a run from the initial state in which
  the clock reading of the tick comes 0.4 s after the one of the press.
\<close>

theorem expired_press_survives_tick_counterexample:
  "last_pressed (state_of (set_velocity 400000000
      (init_state\<lparr>selected_joint := Some (JInt 0), last_pressed := [(97, 0)]\<rparr>))) = [(97, 0)] \<and>
   last_pressed (state_of (run
      [\<lparr>getch = 49, press_now = 0, tick_now = 1000000000, sigint_raises = False\<rparr>,
       \<lparr>getch = 97, press_now = 2000000000, tick_now = 2400000000, sigint_raises = False\<rparr>]
      init_state)) = [(97, 2000000000)]"
  by (simp add: set_velocity_def due_keys_Cons init_state_def state_of_def iteration_def
        read_key_def key_pressed_def ord_q_def ord_r_def joint_bindings_def movement_bindings_def
        write_line_def num_lines_def bind_res_def py_index_def)

text \<open>
  Claim C2, amended. A tick returns, and it empties the dictionary of presses when at
  least one recorded press is inside the window (then every press goes, the expired
  ones too); when every recorded press is 0.4 s old or older the tick leaves the
  dictionary as it is.
\<close>

theorem tick_clears_when_a_press_is_due:
  assumes "consistent s"
  shows "\<exists>s'. set_velocity now s = Inr s' \<and>
           ((\<exists>(k, T) \<in> set (last_pressed s). now - T < 400000000) \<longrightarrow> last_pressed s' = []) \<and>
           ((\<forall>(k, T) \<in> set (last_pressed s). 400000000 \<le> now - T) \<longrightarrow>
              last_pressed s' = last_pressed s)"
  using set_velocity_ok [OF assms, of now]
  by (simp add: due_keys_empty_iff [symmetric] due_keys_nonempty_iff [symmetric])

text \<open>
  The amended claim C2 with the torso selected, a press of \<open>o\<close> that has expired and a
  press of \<open>a\<close> that is due: both are gone after the tick.
\<close>

theorem tick_clears_when_a_press_is_due_witness:
  "consistent (init_state\<lparr>selected_joint := Some (JStr ''torso''),
                          last_pressed := [(111, 0), (97, 900000000)]\<rparr>) \<and>
   (\<exists>(k, T) \<in> set [(111, 0), (97, 900000000 :: int)]. 1000000000 - T < (400000000 :: int)) \<and>
   last_pressed (state_of (set_velocity 1000000000
      (init_state\<lparr>selected_joint := Some (JStr ''torso''),
                  last_pressed := [(111, 0), (97, 900000000)]\<rparr>))) = []"
proof -
  let ?s = "init_state\<lparr>selected_joint := Some (JStr ''torso''),
                        last_pressed := [(111, 0), (97, 900000000)]\<rparr>"
  have c: "consistent ?s"
    by (simp add: consistent_def init_state_def sel_valid_def movement_keys del: not_None_eq)
  show ?thesis
    using c tick_clears_when_a_press_is_due [OF c, of 1000000000]
    by (auto simp: state_of_def)
qed

text \<open>
  Claim C3, as stated, says that a tick sets the flag exactly when it changes a position
  and that it does not set it while nothing is selected. With nothing selected and a
  press of \<open>a\<close> inside the window, the tick sets the flag and changes no position.
  The loop gets there from the initial state when a press outlives its tick (the tick
  comes 0.4 s after the press is recorded), \<open>r\<close> clears the selection and the clock then
  reads an earlier time: the dispatch step runs (it redraws the window) with all
  positions as they were.
\<close>

theorem dirty_without_mutation_counterexample:
  "selected_joint (init_state\<lparr>last_pressed := [(97, 0)]\<rparr>) = None \<and>
   \<not> goal_sent (init_state\<lparr>last_pressed := [(97, 0)]\<rparr>) \<and>
   goal_sent (state_of (set_velocity 100000000 (init_state\<lparr>last_pressed := [(97, 0)]\<rparr>))) \<and>
   joint_positions_arm (state_of (set_velocity 100000000 (init_state\<lparr>last_pressed := [(97, 0)]\<rparr>)))
     = joint_positions_arm init_state \<and>
   joint_position_torso (state_of (set_velocity 100000000 (init_state\<lparr>last_pressed := [(97, 0)]\<rparr>)))
     = joint_position_torso init_state \<and>
   joint_position_gripper (state_of (set_velocity 100000000 (init_state\<lparr>last_pressed := [(97, 0)]\<rparr>)))
     = joint_position_gripper init_state \<and>
   display (state_of (run
      [\<lparr>getch = 49, press_now = 0, tick_now = 1000000000, sigint_raises = False\<rparr>,
       \<lparr>getch = 97, press_now = 2000000000, tick_now = 2400000000, sigint_raises = False\<rparr>,
       \<lparr>getch = 114, press_now = 0, tick_now = 2100000000, sigint_raises = False\<rparr>]
      init_state)) =
     [Write_line 1 (Selected_Joint_int 1), Write_line 2 (Joint_Position 1 0.2),
      Write_line 1 Reselect_Joint, Clear, Write_line 0 Instructions, Refresh] \<and>
   joint_positions_arm (state_of (run
      [\<lparr>getch = 49, press_now = 0, tick_now = 1000000000, sigint_raises = False\<rparr>,
       \<lparr>getch = 97, press_now = 2000000000, tick_now = 2400000000, sigint_raises = False\<rparr>,
       \<lparr>getch = 114, press_now = 0, tick_now = 2100000000, sigint_raises = False\<rparr>]
      init_state)) = joint_positions_arm init_state"
  by (simp add: set_velocity_def due_keys_Cons init_state_def state_of_def adjust_def bind_res_def
        iteration_def read_key_def key_pressed_def ord_q_def ord_r_def joint_bindings_def
        movement_bindings_def write_line_def num_lines_def py_index_def publish_def clear_def
        refresh_def)

text \<open>
  Claim C3, amended. A tick returns; the flag is set after it exactly when it was set
  before or some recorded press is inside the window. A tick that changes a position
  sets the flag and has a selection. While nothing is selected a tick changes no
  position, and the dispatch step that follows submits no goal.
\<close>

theorem dirty_iff_a_press_is_due:
  assumes "consistent s"
  shows "\<exists>s'. set_velocity now s = Inr s' \<and>
           (goal_sent s' \<longleftrightarrow>
              goal_sent s \<or> (\<exists>(k, T) \<in> set (last_pressed s). now - T < 400000000)) \<and>
           (joint_positions_arm s' \<noteq> joint_positions_arm s \<or>
            joint_position_torso s' \<noteq> joint_position_torso s \<or>
            joint_position_gripper s' \<noteq> joint_position_gripper s \<longrightarrow>
              goal_sent s' \<and> selected_joint s \<noteq> None) \<and>
           (selected_joint s = None \<longrightarrow>
              joint_positions_arm s' = joint_positions_arm s \<and>
              joint_position_torso s' = joint_position_torso s \<and>
              joint_position_gripper s' = joint_position_gripper s \<and>
              submitted (state_of (publish s')) = submitted s)"
proof (cases "due_keys now (last_pressed s) = []")
  case True
  then have "set_velocity now s = Inr s"
    using set_velocity_ok [OF assms, of now] by simp
  moreover have "\<not> (\<exists>(k, T) \<in> set (last_pressed s). now - T < 400000000)"
    using True by (simp add: due_keys_nonempty_iff [symmetric])
  ultimately show ?thesis
    by (simp add: publish_none)
next
  case False
  let ?s' = "(moved (sum_list (map delta (due_keys now (last_pressed s)))) s)
               \<lparr>goal_sent := True, last_pressed := []\<rparr>"
  have eq: "set_velocity now s = Inr ?s'"
    using False set_velocity_ok [OF assms, of now] by simp
  have due: "\<exists>(k, T) \<in> set (last_pressed s). now - T < 400000000"
    using False by (simp add: due_keys_nonempty_iff [symmetric])
  have none: "selected_joint s = None \<Longrightarrow> ?s' = s\<lparr>goal_sent := True, last_pressed := []\<rparr>"
    by (simp add: moved_none)
  show ?thesis
  proof (cases "selected_joint s = None")
    case True
    then show ?thesis
      using eq due none by (simp add: publish_none)
  next
    case False
    then show ?thesis
      using eq due by auto
  qed
qed

text \<open>
  The amended claim C3 with arm joint 3 selected and a press of \<open>d\<close> that is due.
\<close>

theorem dirty_iff_a_press_is_due_witness:
  "consistent (init_state\<lparr>selected_joint := Some (JInt 2), last_pressed := [(100, 0)]\<rparr>) \<and>
   (\<exists>(k, T) \<in> set [(100, 0 :: int)]. 100000000 - T < (400000000 :: int)) \<and>
   goal_sent (state_of (set_velocity 100000000
      (init_state\<lparr>selected_joint := Some (JInt 2), last_pressed := [(100, 0)]\<rparr>)))"
proof -
  let ?s = "init_state\<lparr>selected_joint := Some (JInt 2), last_pressed := [(100, 0)]\<rparr>"
  have c: "consistent ?s"
    by (simp add: consistent_def init_state_def sel_valid_def movement_keys del: not_None_eq)
  show ?thesis
    using c dirty_iff_a_press_is_due [OF c, of 100000000]
    by (auto simp: state_of_def)
qed

text \<open>
  Claim C4. Let the press of \<open>k\<close> at time \<open>T\<close> be on record, among any others, in a
  state with a selection, and let the tick come at \<open>T + \<Delta>\<close>. The tick returns, and the
  position of the selected group after it is the one the same tick gives without that
  press, plus the step of \<open>k\<close> if \<open>\<Delta> < 0.4 s\<close> and plus nothing if \<open>\<Delta> \<ge> 0.4 s\<close>; the
  step of a recorded key is never zero. The other positions are the same with and
  without the press.
\<close>

theorem press_contributes_iff_inside_window:
  assumes "consistent s" and "last_pressed s = pre @ (k, T) # post"
    and "r = state_of (set_velocity (T + \<Delta>) (s\<lparr>last_pressed := pre @ post\<rparr>))"
    and "c = (if \<Delta> < 400000000 then delta k else 0)"
  shows "\<exists>s'. set_velocity (T + \<Delta>) s = Inr s' \<and>
           movement_bindings k = Some (delta k) \<and> delta k \<noteq> 0 \<and>
           (\<forall>i. selected_joint s = Some (JInt i) \<longrightarrow>
              joint_positions_arm s' =
                (joint_positions_arm r)[nat i := joint_positions_arm r ! nat i + c] \<and>
              joint_position_torso s' = joint_position_torso r \<and>
              joint_position_gripper s' = joint_position_gripper r) \<and>
           (selected_joint s = Some (JStr ''torso'') \<longrightarrow>
              joint_position_torso s' = joint_position_torso r + c \<and>
              joint_positions_arm s' = joint_positions_arm r \<and>
              joint_position_gripper s' = joint_position_gripper r) \<and>
           (selected_joint s = Some (JStr ''gripper'') \<longrightarrow>
              joint_position_gripper s' = joint_position_gripper r + c \<and>
              joint_positions_arm s' = joint_positions_arm r \<and>
              joint_position_torso s' = joint_position_torso r)"
proof -
  let ?now = "T + \<Delta>"
  let ?rest = "s\<lparr>last_pressed := pre @ post\<rparr>"
  let ?a = "sum_list (map delta (due_keys ?now (pre @ post)))"
  let ?x = "moved ?a s"
  have bound: "movement_bindings k \<noteq> None"
    using assms(1,2) by (simp add: consistent_def)
  have rest: "consistent ?rest"
    using assms(1,2) by (intro consistent_last_pressed) auto
  have sum: "sum_list (map delta (due_keys ?now (last_pressed s))) = ?a + c"
    using assms(2,4) by (simp add: due_keys_append due_keys_Cons)
  obtain s' where s': "set_velocity ?now s = Inr s'"
    "joint_positions_arm s' = joint_positions_arm (moved c ?x)"
    "joint_position_torso s' = joint_position_torso (moved c ?x)"
    "joint_position_gripper s' = joint_position_gripper (moved c ?x)"
    using set_velocity_positions [OF assms(1), of ?now] by (auto simp: sum moved_moved)
  have r: "joint_positions_arm r = joint_positions_arm ?x"
    "joint_position_torso r = joint_position_torso ?x"
    "joint_position_gripper r = joint_position_gripper ?x"
    using set_velocity_positions [OF rest, of ?now] assms(3)
    by (auto simp: state_of_def moved_last_pressed)
  have len: "length (joint_positions_arm ?x) = 7"
    using assms(1) by (simp add: consistent_def)
  have arm: "joint_positions_arm (moved c ?x) =
               (joint_positions_arm ?x)[nat i := joint_positions_arm ?x ! nat i + c] \<and>
             joint_position_torso (moved c ?x) = joint_position_torso ?x \<and>
             joint_position_gripper (moved c ?x) = joint_position_gripper ?x"
    if "selected_joint s = Some (JInt i)" for i
  proof -
    have "0 \<le> i" "i < 7"
      using that assms(1) by (simp_all add: consistent_def sel_valid_def)
    then show ?thesis
      using that len by (simp add: moved_int_arm moved_int)
  qed
  have torso: "joint_position_torso (moved c ?x) = joint_position_torso ?x + c \<and>
               joint_positions_arm (moved c ?x) = joint_positions_arm ?x \<and>
               joint_position_gripper (moved c ?x) = joint_position_gripper ?x"
    if "selected_joint s = Some (JStr ''torso'')"
    using that by (simp add: moved_torso moved_str)
  have gripper: "joint_position_gripper (moved c ?x) = joint_position_gripper ?x + c \<and>
                 joint_positions_arm (moved c ?x) = joint_positions_arm ?x \<and>
                 joint_position_torso (moved c ?x) = joint_position_torso ?x"
    if "selected_joint s = Some (JStr ''gripper'')"
    using that by (simp add: moved_gripper moved_str)
  show ?thesis
    using s' r arm torso gripper delta_bound [OF bound] by simp
qed

text \<open>
  Claim C4 at the boundary: with arm joint 3 selected, a press of \<open>d\<close> at time 0 moves
  the joint by 0.01 on a tick at 399999999 ns and not at all on a tick at 400000000 ns.
\<close>

theorem press_contributes_iff_inside_window_witness:
  "consistent (init_state\<lparr>selected_joint := Some (JInt 2), last_pressed := [(100, 0)]\<rparr>) \<and>
   joint_positions_arm (state_of (set_velocity 399999999
      (init_state\<lparr>selected_joint := Some (JInt 2), last_pressed := [(100, 0)]\<rparr>))) ! 2
     = - 0.2 + 0.01 \<and>
   joint_positions_arm (state_of (set_velocity 400000000
      (init_state\<lparr>selected_joint := Some (JInt 2), last_pressed := [(100, 0)]\<rparr>))) ! 2
     = - 0.2"
proof -
  let ?s = "init_state\<lparr>selected_joint := Some (JInt 2), last_pressed := [(100, 0)]\<rparr>"
  let ?rest = "?s\<lparr>last_pressed := [] @ []\<rparr>"
  have c: "consistent ?s"
    by (simp add: consistent_def init_state_def sel_valid_def movement_keys del: not_None_eq)
  have l: "last_pressed ?s = [] @ (100, 0) # []"
    by simp
  have r: "?rest = state_of (set_velocity (0 + t) ?rest)" for t
    by (simp add: set_velocity_def state_of_def)
  have d: "delta 100 = 0.01"
    by (simp add: delta_def movement_bindings_def)
  have sel: "selected_joint ?s = Some (JInt 2)"
    by simp
  have a: "joint_positions_arm ?rest = [0.2, - 1.34, - 0.2, 1.94, - 1.57, 1.37, 0.0]"
    by (simp add: init_state_def)
  obtain s1 where s1: "set_velocity (0 + 399999999) ?s = Inr s1"
    "joint_positions_arm s1 =
       (joint_positions_arm ?rest)[nat 2 := joint_positions_arm ?rest ! nat 2 +
          (if (399999999 :: int) < 400000000 then delta 100 else 0)]"
    using press_contributes_iff_inside_window [OF c l r refl, of 399999999] sel by blast
  obtain s2 where s2: "set_velocity (0 + 400000000) ?s = Inr s2"
    "joint_positions_arm s2 =
       (joint_positions_arm ?rest)[nat 2 := joint_positions_arm ?rest ! nat 2 +
          (if (400000000 :: int) < 400000000 then delta 100 else 0)]"
    using press_contributes_iff_inside_window [OF c l r refl, of 400000000] sel by blast
  have "joint_positions_arm (state_of (set_velocity 399999999 ?s)) ! 2 = - 0.2 + 0.01"
    using s1 unfolding a d by (simp add: state_of_def)
  moreover have "joint_positions_arm (state_of (set_velocity 400000000 ?s)) ! 2 = - 0.2"
    using s2 unfolding a d by (simp add: state_of_def)
  ultimately show ?thesis
    using c by simp
qed

text \<open>
  Claim C5. The dispatch step never raises, and what it submits is decided by the
  selection: for an arm index, one goal to the arm controller with the seven arm joint
  names in order and one waypoint holding the current arm vector; for the torso, one
  goal with the one torso joint and the torso position; for the gripper, one goal with
  the two finger joints, both at the gripper position. Every waypoint is due one second
  from the start. Without a selection nothing is submitted. (That the arm vector has
  seven elements in every state the loop reaches is part of \<open>consistent\<close>, which every
  iteration keeps.)
\<close>

theorem dispatched_goal_shape:
  "raised (publish s) = None \<and>
   submitted (state_of (publish s)) =
     submitted s @
     (case selected_joint s of
        Some (JInt i) \<Rightarrow>
          [(''/arm_controller/follow_joint_trajectory'',
            \<lparr>joint_names =
               [''arm_1_joint'', ''arm_2_joint'', ''arm_3_joint'', ''arm_4_joint'',
                ''arm_5_joint'', ''arm_6_joint'', ''arm_7_joint''],
             points = [\<lparr>positions = joint_positions_arm s, time_from_start = (1, 0)\<rparr>]\<rparr>)]
      | Some (JStr n) \<Rightarrow>
          (if n = ''torso'' then
             [(''/torso_controller/follow_joint_trajectory'',
               \<lparr>joint_names = [''torso_lift_joint''],
                points = [\<lparr>positions = [joint_position_torso s], time_from_start = (1, 0)\<rparr>]\<rparr>)]
           else if n = ''gripper'' then
             [(''/gripper_controller/follow_joint_trajectory'',
               \<lparr>joint_names = [''gripper_right_finger_joint'', ''gripper_left_finger_joint''],
                points = [\<lparr>positions = [joint_position_gripper s, joint_position_gripper s],
                           time_from_start = (1, 0)\<rparr>]\<rparr>)]
           else [])
      | None \<Rightarrow> [])"
  by (simp add: publish_def write_line_def num_lines_def clear_def refresh_def bind_res_def
        raised_def state_of_def send_goal_arm_def send_goal_torso_def send_goal_gripper_def
        split: option.splits joint.splits)

text \<open>
  Claim C6. For a non-empty sequence of digit keys \<open>1\<close> to \<open>9\<close> (key codes 49 to 57),
  handing the keys one after the other to the key handler returns, leaves as selection
  the group the table binds to the last key (\<open>1\<close> to \<open>7\<close>: arm index 0 to 6, \<open>8\<close>: torso,
  \<open>9\<close>: gripper) and changes no position. The same holds for the control loop reading
  these keys, one per iteration, from a running state with no press on record, as the
  initial state is.
\<close>

theorem digits_select_last_group:
  assumes "ks \<noteq> []" and "\<forall>k \<in> set ks. 49 \<le> k \<and> k \<le> 57"
  shows "(\<exists>s'. key_sequence sg now ks s = Inr s' \<and>
            selected_joint s' = Some (digit_group (last ks)) \<and>
            joint_bindings (last ks) = Some (digit_group (last ks)) \<and>
            joint_positions_arm s' = joint_positions_arm s \<and>
            joint_position_torso s' = joint_position_torso s \<and>
            joint_position_gripper s' = joint_position_gripper s) \<and>
         (running s \<and> last_pressed s = [] \<and> map getch es = ks \<longrightarrow>
            (\<exists>s'. run es s = Inr s' \<and>
               selected_joint s' = Some (digit_group (last ks)) \<and>
               joint_positions_arm s' = joint_positions_arm s \<and>
               joint_position_torso s' = joint_position_torso s \<and>
               joint_position_gripper s' = joint_position_gripper s))"
proof -
  have l: "49 \<le> last ks" "last ks \<le> 57"
    using assms by (simp_all add: last_in_set)
  have a: "\<exists>s'. key_sequence sg now ks s = Inr s' \<and>
            selected_joint s' = Some (digit_group (last ks)) \<and>
            joint_bindings (last ks) = Some (digit_group (last ks)) \<and>
            joint_positions_arm s' = joint_positions_arm s \<and>
            joint_position_torso s' = joint_position_torso s \<and>
            joint_position_gripper s' = joint_position_gripper s"
    using digits_key_sequence [OF assms(2), of sg now s] assms(1) digit_binding(1) [OF l]
    by simp
  have b: "\<exists>s'. run es s = Inr s' \<and>
               selected_joint s' = Some (digit_group (last ks)) \<and>
               joint_positions_arm s' = joint_positions_arm s \<and>
               joint_position_torso s' = joint_position_torso s \<and>
               joint_position_gripper s' = joint_position_gripper s"
    if "running s" "last_pressed s = []" "map getch es = ks"
  proof -
    have "\<forall>e \<in> set es. 49 \<le> getch e \<and> getch e \<le> 57"
      using assms(2) that(3) by auto
    moreover have ne: "es \<noteq> []"
      using assms(1) that(3) by auto
    moreover have "getch (last es) = last ks"
      using ne that(3) last_map [of es getch] by simp
    ultimately show ?thesis
      using digits_run [of es s] that(1,2) by simp
  qed
  show ?thesis
    using a b by blast
qed

text \<open>
  Claim C6 at the keys \<open>1\<close>, \<open>8\<close>, \<open>3\<close> from the initial state: arm index 2 is selected.
\<close>

theorem digits_select_last_group_witness:
  "[49, 56, 51 :: int] \<noteq> [] \<and> list_all (\<lambda>k. 49 \<le> k \<and> k \<le> 57) [49, 56, 51 :: int] \<and>
   selected_joint (state_of (key_sequence False 0 [49, 56, 51] init_state)) = Some (JInt 2) \<and>
   joint_positions_arm (state_of (key_sequence False 0 [49, 56, 51] init_state))
     = joint_positions_arm init_state \<and>
   selected_joint (state_of (run
      [\<lparr>getch = 49, press_now = 0, tick_now = 100000000, sigint_raises = False\<rparr>,
       \<lparr>getch = 56, press_now = 0, tick_now = 200000000, sigint_raises = False\<rparr>,
       \<lparr>getch = 51, press_now = 0, tick_now = 300000000, sigint_raises = False\<rparr>]
      init_state)) = Some (JInt 2)"
proof -
  let ?es = "[\<lparr>getch = 49, press_now = 0, tick_now = 100000000, sigint_raises = False\<rparr>,
       \<lparr>getch = 56, press_now = 0, tick_now = 200000000, sigint_raises = False\<rparr>,
       \<lparr>getch = 51, press_now = 0, tick_now = 300000000, sigint_raises = False\<rparr>]"
  have ne: "[49, 56, 51 :: int] \<noteq> []" by simp
  have dg: "\<forall>k \<in> set [49, 56, 51 :: int]. 49 \<le> k \<and> k \<le> 57" by simp
  have st: "running init_state \<and> last_pressed init_state = [] \<and> map getch ?es = [49, 56, 51]"
    by (simp add: init_state_def)
  have g: "digit_group (last [49, 56, 51]) = JInt 2"
    by (simp add: digit_group_def)
  have dg': "list_all (\<lambda>k. 49 \<le> k \<and> k \<le> 57) [49, 56, 51 :: int]" by simp
  show ?thesis
    using ne dg' st digits_select_last_group [OF ne dg, of False 0 init_state ?es]
    unfolding g by auto
qed

text \<open>
  Claim C7, as stated, says that the iteration that reads \<open>q\<close> dispatches no goal even
  if the dirty flag is set in it. From the initial state, select arm joint 1, press \<open>a\<close>
  with its tick 0.4 s after the press is recorded (the press stays on record), then read
  \<open>q\<close> at a clock reading inside the window of that press, with the interrupt not
  surfacing inside \<open>os.kill\<close>: nothing was submitted before, and the iteration that reads
  \<open>q\<close> applies the press and submits the arm goal.
\<close>

theorem quit_dispatch_in_same_iteration_counterexample:
  "submitted (state_of (run
      [\<lparr>getch = 49, press_now = 0, tick_now = 1000000000, sigint_raises = False\<rparr>,
       \<lparr>getch = 97, press_now = 2000000000, tick_now = 2400000000, sigint_raises = False\<rparr>]
      init_state)) = [] \<and>
   running (state_of (run
      [\<lparr>getch = 49, press_now = 0, tick_now = 1000000000, sigint_raises = False\<rparr>,
       \<lparr>getch = 97, press_now = 2000000000, tick_now = 2400000000, sigint_raises = False\<rparr>]
      init_state)) \<and>
   getch \<lparr>getch = 113, press_now = 0, tick_now = 2100000000, sigint_raises = False\<rparr> = ord_q \<and>
   submitted (state_of (run
      [\<lparr>getch = 49, press_now = 0, tick_now = 1000000000, sigint_raises = False\<rparr>,
       \<lparr>getch = 97, press_now = 2000000000, tick_now = 2400000000, sigint_raises = False\<rparr>,
       \<lparr>getch = 113, press_now = 0, tick_now = 2100000000, sigint_raises = False\<rparr>]
      init_state)) =
     [(''/arm_controller/follow_joint_trajectory'',
       \<lparr>joint_names =
          [''arm_1_joint'', ''arm_2_joint'', ''arm_3_joint'', ''arm_4_joint'',
           ''arm_5_joint'', ''arm_6_joint'', ''arm_7_joint''],
        points = [\<lparr>positions = [0.19, - 1.34, - 0.2, 1.94, - 1.57, 1.37, 0.0],
                   time_from_start = (1, 0)\<rparr>]\<rparr>)]"
  by (simp add: set_velocity_def due_keys_Cons init_state_def adjust_def
        iteration_def read_key_def key_pressed_def ord_q_def ord_r_def joint_bindings_def
        movement_bindings_def write_line_def num_lines_def py_index_def publish_def clear_def
        refresh_def send_goal_arm_def)

text \<open>
  Claim C7, amended. Let the loop read \<open>q\<close> in a running state. The loop ends with this
  iteration: \<open>_running\<close> is false after it and later input is not read, so nothing is
  dispatched after it. If the interrupt surfaces as \<open>KeyboardInterrupt\<close> inside \<open>os.kill\<close>,
  the iteration ends there, with nothing dispatched, whatever the flag and the recorded
  presses are. If it does not surface, quitting does not come before the dispatch step:
  the iteration goes on as one that read no key, and it dispatches a goal exactly when a
  group is selected and the flag is set or a recorded press is inside the window.
\<close>

theorem quit_stops_after_its_iteration:
  assumes "consistent s" and "running s" and "getch e = ord_q"
  shows "run (e # es) s = iteration e s \<and>
         \<not> running (state_of (run (e # es) s)) \<and>
         (sigint_raises e \<longrightarrow>
            run (e # es) s = Inl (KeyboardInterrupt, s\<lparr>running := False\<rparr>) \<and>
            submitted (state_of (run (e # es) s)) = submitted s) \<and>
         (\<not> sigint_raises e \<longrightarrow>
            raised (run (e # es) s) = None \<and>
            iteration e s = iteration (e\<lparr>getch := - 1\<rparr>) (s\<lparr>running := False\<rparr>) \<and>
            ((submitted (state_of (run (e # es) s)) \<noteq> submitted s) =
             (selected_joint s \<noteq> None \<and>
              (goal_sent s \<or> (\<exists>(k, T) \<in> set (last_pressed s). tick_now e - T < 400000000)))))"
proof (cases "sigint_raises e")
  case True
  have key: "read_key (getch e) = Some ord_q"
    using assms(3) by (simp add: read_key_def ord_q_def)
  have "iteration e s = Inl (KeyboardInterrupt, s\<lparr>running := False\<rparr>)"
    using key True by (simp add: iteration_def key_pressed_def)
  then show ?thesis
    using assms(2) True by simp
next
  case False
  let ?s1 = "s\<lparr>running := False\<rparr>"
  have key: "read_key (getch e) = Some ord_q"
    using assms(3) by (simp add: read_key_def ord_q_def)
  have c1: "consistent ?s1"
    using assms(1) by (simp add: consistent_def)
  obtain s4 where s4:
    "bind_res (set_velocity (tick_now e) ?s1)
       (\<lambda>s2. if goal_sent s2
             then bind_res (publish s2) (\<lambda>s3. Inr (s3\<lparr>goal_sent := False\<rparr>))
             else Inr s2) = Inr s4"
    "running s4 = running ?s1"
    "(submitted s4 \<noteq> submitted ?s1) =
       (selected_joint ?s1 \<noteq> None \<and>
        (goal_sent ?s1 \<or> (\<exists>(k, T) \<in> set (last_pressed ?s1). tick_now e - T < 400000000)))"
    using tick_and_dispatch_submitted [OF c1, of "tick_now e"] by auto
  have it: "iteration e s = Inr s4"
    using key False s4(1) by (simp add: iteration_def key_pressed_def)
  have idle: "iteration (e\<lparr>getch := - 1\<rparr>) ?s1 = Inr s4"
    using s4(1) by (simp add: iteration_def read_key_def)
  have stopped: "\<not> running s4"
    using s4(2) by simp
  have run: "run (e # es) s = Inr s4"
    using assms(2) it stopped by (simp add: run_stopped)
  have sub: "(submitted s4 \<noteq> submitted s) =
             (selected_joint s \<noteq> None \<and>
              (goal_sent s \<or> (\<exists>(k, T) \<in> set (last_pressed s). tick_now e - T < 400000000)))"
    using s4(3) by simp
  show ?thesis
    unfolding run it idle using False stopped sub by simp
qed

text \<open>
  The amended claim C7 with arm joint 1 selected and a press of \<open>a\<close> that is due: without
  the interrupt surfacing the loop stops and has submitted a goal, and the key waiting
  next is not read; with it surfacing the run ends by \<open>KeyboardInterrupt\<close> in the state
  it had, but for \<open>_running\<close>.
\<close>

theorem quit_stops_after_its_iteration_witness:
  "consistent (init_state\<lparr>selected_joint := Some (JInt 0), last_pressed := [(97, 2000000000)]\<rparr>) \<and>
   running (init_state\<lparr>selected_joint := Some (JInt 0), last_pressed := [(97, 2000000000)]\<rparr>) \<and>
   \<not> running (state_of (run
       [\<lparr>getch = 113, press_now = 0, tick_now = 2100000000, sigint_raises = False\<rparr>,
        \<lparr>getch = 97, press_now = 2200000000, tick_now = 2200000001, sigint_raises = False\<rparr>]
       (init_state\<lparr>selected_joint := Some (JInt 0), last_pressed := [(97, 2000000000)]\<rparr>))) \<and>
   submitted (state_of (run
       [\<lparr>getch = 113, press_now = 0, tick_now = 2100000000, sigint_raises = False\<rparr>,
        \<lparr>getch = 97, press_now = 2200000000, tick_now = 2200000001, sigint_raises = False\<rparr>]
       (init_state\<lparr>selected_joint := Some (JInt 0), last_pressed := [(97, 2000000000)]\<rparr>)))
     \<noteq> [] \<and>
   run [\<lparr>getch = 113, press_now = 0, tick_now = 2100000000, sigint_raises = True\<rparr>]
       (init_state\<lparr>selected_joint := Some (JInt 0), last_pressed := [(97, 2000000000)]\<rparr>)
     = Inl (KeyboardInterrupt,
            init_state\<lparr>selected_joint := Some (JInt 0), last_pressed := [(97, 2000000000)],
                        running := False\<rparr>)"
proof -
  let ?s = "init_state\<lparr>selected_joint := Some (JInt 0), last_pressed := [(97, 2000000000)]\<rparr>"
  let ?e = "\<lparr>getch = 113, press_now = 0, tick_now = 2100000000, sigint_raises = False\<rparr>"
  let ?e' = "\<lparr>getch = 113, press_now = 0, tick_now = 2100000000, sigint_raises = True\<rparr>"
  let ?es = "[\<lparr>getch = 97, press_now = 2200000000, tick_now = 2200000001, sigint_raises = False\<rparr>]"
  have c: "consistent ?s"
    by (simp add: consistent_def init_state_def sel_valid_def movement_keys del: not_None_eq)
  have r: "running ?s" by (simp add: init_state_def)
  have q: "getch ?e = ord_q" "getch ?e' = ord_q" by (simp_all add: ord_q_def)
  have sub: "submitted ?s = []" by (simp add: init_state_def)
  have ns: "\<not> sigint_raises ?e" and ys: "sigint_raises ?e'"
    by simp_all
  have due: "selected_joint ?s \<noteq> None \<and>
             (goal_sent ?s \<or> (\<exists>(k, T) \<in> set (last_pressed ?s). tick_now ?e - T < 400000000))"
    by (simp add: init_state_def)
  note th = quit_stops_after_its_iteration [OF c r q(1), of ?es]
  have a1: "\<not> running (state_of (run (?e # ?es) ?s))"
    using th by blast
  have a2: "submitted (state_of (run (?e # ?es) ?s)) \<noteq> submitted ?s"
    using th ns due by blast
  have a3: "submitted (state_of (run (?e # ?es) ?s)) \<noteq> []"
    using a2 unfolding sub .
  have b: "run (?e' # []) ?s = Inl (KeyboardInterrupt, ?s\<lparr>running := False\<rparr>)"
    using quit_stops_after_its_iteration [OF c r q(2), of "[]"] ys by blast
  show ?thesis
    using c r a1 a3 b by blast
qed

text \<open>
  Claim C8. When the acknowledgment of a goal reports rejection, the response callback
  appends the line \<open>Goal rejected\<close> to the log and does nothing else: it requests no
  result, submits nothing again, and leaves the positions, the selection, the recorded
  presses and the two flags as they are.
\<close>

theorem rejected_goal_only_logged:
  "goal_response_callback False s = s\<lparr>logged := logged s @ [Info ''Goal rejected'']\<rparr> \<and>
   result_requests (goal_response_callback False s) = result_requests s \<and>
   submitted (goal_response_callback False s) = submitted s \<and>
   joint_positions_arm (goal_response_callback False s) = joint_positions_arm s \<and>
   joint_position_torso (goal_response_callback False s) = joint_position_torso s \<and>
   joint_position_gripper (goal_response_callback False s) = joint_position_gripper s \<and>
   selected_joint (goal_response_callback False s) = selected_joint s \<and>
   last_pressed (goal_response_callback False s) = last_pressed s \<and>
   goal_sent (goal_response_callback False s) = goal_sent s \<and>
   running (goal_response_callback False s) = running s"
  by (simp add: goal_response_callback_def)

text \<open>
  Claim C9. In every state the loop reaches from the initial state, whatever the keys
  and the clock readings, the arm vector has seven elements and a selection that is an
  integer is one of 0 to 6, so it indexes the vector; no run raises \<open>IndexError\<close> (nor
  \<open>KeyError\<close> or \<open>ValueError\<close>).
\<close>

theorem arm_index_always_in_bounds:
  "raised (run es init_state) \<notin> {Some IndexError, Some KeyError, Some ValueError} \<and>
   length (joint_positions_arm (state_of (run es init_state))) = 7 \<and>
   (\<forall>i. selected_joint (state_of (run es init_state)) = Some (JInt i) \<longrightarrow>
      0 \<le> i \<and> i \<le> 6 \<and>
      py_index (joint_positions_arm (state_of (run es init_state))) i = Some (nat i))"
proof -
  have c: "consistent (state_of (run es init_state))"
    and r: "raised (run es init_state) \<in> {None, Some KeyboardInterrupt}"
    using run_consistent [OF consistent_init, of es] by blast+
  have len: "length (joint_positions_arm (state_of (run es init_state))) = 7"
    using c by (simp add: consistent_def)
  have "0 \<le> i \<and> i \<le> 6 \<and>
        py_index (joint_positions_arm (state_of (run es init_state))) i = Some (nat i)"
    if "selected_joint (state_of (run es init_state)) = Some (JInt i)" for i
  proof -
    have "0 \<le> i" "i < 7"
      using c that by (simp_all add: consistent_def sel_valid_def)
    then show ?thesis
      using len by (simp add: py_index_valid)
  qed
  then show ?thesis
    using r len by auto
qed

text \<open>
  Claim C9 after the keys \<open>7\<close> and \<open>p\<close>: index 6 is selected and in bounds.
\<close>

theorem arm_index_always_in_bounds_witness:
  "selected_joint (state_of (run
      [\<lparr>getch = 55, press_now = 0, tick_now = 1000000000, sigint_raises = False\<rparr>,
       \<lparr>getch = 112, press_now = 2000000000, tick_now = 2000001000, sigint_raises = False\<rparr>]
      init_state)) = Some (JInt 6) \<and>
   py_index (joint_positions_arm (state_of (run
      [\<lparr>getch = 55, press_now = 0, tick_now = 1000000000, sigint_raises = False\<rparr>,
       \<lparr>getch = 112, press_now = 2000000000, tick_now = 2000001000, sigint_raises = False\<rparr>]
      init_state))) 6 = Some 6"
proof -
  let ?es = "[\<lparr>getch = 55, press_now = 0, tick_now = 1000000000, sigint_raises = False\<rparr>,
       \<lparr>getch = 112, press_now = 2000000000, tick_now = 2000001000, sigint_raises = False\<rparr>]"
  have sel: "selected_joint (state_of (run ?es init_state)) = Some (JInt 6)"
    by (simp add: iteration_def read_key_def key_pressed_def ord_q_def ord_r_def
          joint_bindings_def movement_bindings_def write_line_def num_lines_def py_index_def
          set_velocity_def due_keys_Cons adjust_def publish_def clear_def refresh_def
          send_goal_arm_def init_state_def)
  show ?thesis
    using sel arm_index_always_in_bounds [of ?es] by simp
qed

text \<open>
  Claim C10. A tick never changes the selection nor the length of the arm vector, also
  when it raises. With an arm index selected it leaves the torso, the gripper and every
  arm element but the indexed one as they are; with the torso selected it leaves the arm
  and the gripper; with the gripper selected, the arm and the torso; with nothing
  selected, all three.
\<close>

theorem tick_changes_only_selected_position:
  "selected_joint (state_of (set_velocity now s)) = selected_joint s \<and>
   length (joint_positions_arm (state_of (set_velocity now s))) = length (joint_positions_arm s) \<and>
   (\<forall>i. selected_joint s = Some (JInt i) \<longrightarrow>
      joint_position_torso (state_of (set_velocity now s)) = joint_position_torso s \<and>
      joint_position_gripper (state_of (set_velocity now s)) = joint_position_gripper s \<and>
      (\<forall>j. py_index (joint_positions_arm s) i \<noteq> Some j \<longrightarrow>
         joint_positions_arm (state_of (set_velocity now s)) ! j = joint_positions_arm s ! j) \<and>
      (\<forall>j. 0 \<le> i \<and> j \<noteq> nat i \<longrightarrow>
         joint_positions_arm (state_of (set_velocity now s)) ! j = joint_positions_arm s ! j)) \<and>
   (selected_joint s = Some (JStr ''torso'') \<longrightarrow>
      joint_positions_arm (state_of (set_velocity now s)) = joint_positions_arm s \<and>
      joint_position_gripper (state_of (set_velocity now s)) = joint_position_gripper s) \<and>
   (selected_joint s = Some (JStr ''gripper'') \<longrightarrow>
      joint_positions_arm (state_of (set_velocity now s)) = joint_positions_arm s \<and>
      joint_position_torso (state_of (set_velocity now s)) = joint_position_torso s) \<and>
   (selected_joint s = None \<longrightarrow>
      joint_positions_arm (state_of (set_velocity now s)) = joint_positions_arm s \<and>
      joint_position_torso (state_of (set_velocity now s)) = joint_position_torso s \<and>
      joint_position_gripper (state_of (set_velocity now s)) = joint_position_gripper s)"
proof -
  obtain d b l where
    eq: "state_of (set_velocity now s) = (moved d s)\<lparr>goal_sent := b, last_pressed := l\<rparr>"
    using set_velocity_shape by blast
  have nat_index: "py_index (joint_positions_arm s) i \<noteq> Some j" if "0 \<le> i" "j \<noteq> nat i" for i j
    using that by (auto simp: py_index_def Let_def)
  have int: "joint_position_torso (moved d s) = joint_position_torso s \<and>
             joint_position_gripper (moved d s) = joint_position_gripper s \<and>
             (\<forall>j. py_index (joint_positions_arm s) i \<noteq> Some j \<longrightarrow>
                joint_positions_arm (moved d s) ! j = joint_positions_arm s ! j) \<and>
             (\<forall>j. 0 \<le> i \<and> j \<noteq> nat i \<longrightarrow>
                joint_positions_arm (moved d s) ! j = joint_positions_arm s ! j)"
    if "selected_joint s = Some (JInt i)" for i
    using moved_int [OF that] nat_index by simp
  have torso: "joint_positions_arm (moved d s) = joint_positions_arm s \<and>
               joint_position_gripper (moved d s) = joint_position_gripper s"
    if "selected_joint s = Some (JStr ''torso'')"
    using moved_str [OF that] by simp
  have gripper: "joint_positions_arm (moved d s) = joint_positions_arm s \<and>
                 joint_position_torso (moved d s) = joint_position_torso s"
    if "selected_joint s = Some (JStr ''gripper'')"
    using moved_str [OF that] by simp
  have none: "moved d s = s" if "selected_joint s = None"
    using that by (rule moved_none)
  show ?thesis
    unfolding eq using int torso gripper none by simp
qed

text \<open>
  Claim C10 with arm joint 3 selected and a press of \<open>d\<close> that is due: joint 4 and the
  torso keep their values.
\<close>

theorem tick_changes_only_selected_position_witness:
  "selected_joint (init_state\<lparr>selected_joint := Some (JInt 2), last_pressed := [(100, 0)]\<rparr>)
     = Some (JInt 2) \<and>
   joint_positions_arm (state_of (set_velocity 100000000
      (init_state\<lparr>selected_joint := Some (JInt 2), last_pressed := [(100, 0)]\<rparr>))) ! 3 = 1.94 \<and>
   joint_position_torso (state_of (set_velocity 100000000
      (init_state\<lparr>selected_joint := Some (JInt 2), last_pressed := [(100, 0)]\<rparr>))) = 0.15"
  using tick_changes_only_selected_position
    [of 100000000 "init_state\<lparr>selected_joint := Some (JInt 2), last_pressed := [(100, 0)]\<rparr>"]
  by (simp add: init_state_def)

end
